theory Spec2Isabelle
  imports Complex_Main
begin

section \<open>Python values shared by the models\<close>

text \<open>
  Exceptions are values.  An \<open>AssertionError\<close> carries the message of the failed
  \<open>assert\<close> (empty when the statement gives none).
\<close>

datatype py_error =
    AssertionError string
  | ValueError
  | IndexError
  | RuntimeError
  | AttributeError
  | OverflowError
  | KeyError string

definition py_bind :: "py_error + 'a \<Rightarrow> ('a \<Rightarrow> py_error + 'b) \<Rightarrow> py_error + 'b" where
  "py_bind m f = (case m of Inl e \<Rightarrow> Inl e | Inr v \<Rightarrow> f v)"

text \<open>A \<open>for\<close> loop over a list whose body may raise.\<close>

fun py_foldl :: "('b \<Rightarrow> 'a \<Rightarrow> py_error + 'b) \<Rightarrow> 'b \<Rightarrow> 'a list \<Rightarrow> py_error + 'b" where
  "py_foldl f acc [] = Inr acc"
| "py_foldl f acc (x # xs) = (case f acc x of Inl e \<Rightarrow> Inl e | Inr acc' \<Rightarrow> py_foldl f acc' xs)"

text \<open>\<open>xs[i]\<close> on a list: an index from the end when negative, or an \<open>IndexError\<close>.\<close>

definition py_index :: "'a list \<Rightarrow> int \<Rightarrow> py_error + 'a" where
  "py_index xs i =
     (if 0 \<le> i \<and> i < int (length xs) then Inr (xs ! nat i)
      else if i < 0 \<and> - int (length xs) \<le> i then Inr (xs ! nat (int (length xs) + i))
      else Inl IndexError)"

section \<open>Python floats\<close>

text \<open>
  A Python float is an IEEE 754 double: a finite value \<open>m * 2^e\<close> with an integer
  significand of at most 53 bits and \<open>e \<ge> -1074\<close>, below \<open>2^1024\<close> in magnitude; or an
  infinity; or a NaN.  The sign of a zero is not kept: no operation used here
  depends on it.
\<close>

datatype float64 = Finite int int | PosInf | NegInf | NaN

fun valof :: "float64 \<Rightarrow> real" where
  "valof (Finite m e) = (if 0 \<le> e then of_int m * 2 ^ nat e else of_int m / 2 ^ nat (- e))"
| "valof x = 0"

text \<open>The number of binary digits of a natural number.\<close>

function bitlen :: "nat \<Rightarrow> nat" where
  "bitlen n = (if n = 0 then 0 else Suc (bitlen (n div 2)))"
  by pat_completeness auto
termination
  by (relation "measure id") auto

declare bitlen.simps [simp del]

definition is_double :: "float64 \<Rightarrow> bool" where
  "is_double x =
     (case x of
        Finite m e \<Rightarrow> \<bar>m\<bar> < 2 ^ 53 \<and> - 1074 \<le> e \<and> int (bitlen (nat \<bar>m\<bar>)) + e \<le> 1024
      | _ \<Rightarrow> True)"

text \<open>
  Rounding the exact value \<open>M * 2^E\<close> to the nearest double, ties to the even
  significand: the \<open>k\<close> lowest bits that do not fit (53 bits of precision, no bit
  below \<open>2^-1074\<close>) are rounded off, and a result of magnitude \<open>2^1024\<close> or more is
  an infinity.
\<close>

definition finite_or_inf :: "int \<Rightarrow> int \<Rightarrow> float64" where
  "finite_or_inf m e =
     (if 1024 < int (bitlen (nat \<bar>m\<bar>)) + e then (if 0 < m then PosInf else NegInf)
      else Finite m e)"

definition round_to_double :: "int \<Rightarrow> int \<Rightarrow> float64" where
  "round_to_double M E =
     (let n = int (bitlen (nat \<bar>M\<bar>)); k = max (n - 53) (- 1074 - E) in
      if k \<le> 0 then finite_or_inf M E
      else
        let q = M div 2 ^ nat k; r = M mod 2 ^ nat k; h = 2 ^ (nat k - 1);
            q' = (if h < r \<or> (r = h \<and> odd q) then q + 1 else q)
        in finite_or_inf q' (E + k))"

text \<open>
  The conversion of an int that a mixed product performs: correctly rounded, and
  an \<open>OverflowError\<close> when the int is too large for a float.
\<close>

definition float_of_int :: "int \<Rightarrow> py_error + float64" where
  "float_of_int n =
     (case round_to_double n 0 of
        Finite m e \<Rightarrow> Inr (Finite m e)
      | _ \<Rightarrow> Inl OverflowError)"

text \<open>\<open>x * y\<close> on floats.\<close>

fun float_mul :: "float64 \<Rightarrow> float64 \<Rightarrow> float64" where
  "float_mul (Finite m1 e1) (Finite m2 e2) = round_to_double (m1 * m2) (e1 + e2)"
| "float_mul NaN y = NaN"
| "float_mul x NaN = NaN"
| "float_mul (Finite m e) PosInf = (if m = 0 then NaN else if 0 < m then PosInf else NegInf)"
| "float_mul (Finite m e) NegInf = (if m = 0 then NaN else if 0 < m then NegInf else PosInf)"
| "float_mul PosInf (Finite m e) = (if m = 0 then NaN else if 0 < m then PosInf else NegInf)"
| "float_mul NegInf (Finite m e) = (if m = 0 then NaN else if 0 < m then NegInf else PosInf)"
| "float_mul PosInf PosInf = PosInf"
| "float_mul PosInf NegInf = NegInf"
| "float_mul NegInf PosInf = NegInf"
| "float_mul NegInf NegInf = PosInf"

text \<open>\<open>x * n\<close> for a float \<open>x\<close> and an int \<open>n\<close>: the int is converted first.\<close>

definition float_times_int :: "float64 \<Rightarrow> int \<Rightarrow> py_error + float64" where
  "float_times_int x n = py_bind (float_of_int n) (\<lambda>c. Inr (float_mul x c))"

text \<open>\<open>x <= y\<close> on floats: false as soon as one side is a NaN.\<close>

fun float_le :: "float64 \<Rightarrow> float64 \<Rightarrow> bool" where
  "float_le (Finite m1 e1) (Finite m2 e2) =
     (m1 * 2 ^ nat (e1 - min e1 e2) \<le> m2 * 2 ^ nat (e2 - min e1 e2))"
| "float_le NaN y = False"
| "float_le x NaN = False"
| "float_le NegInf y = True"
| "float_le x PosInf = True"
| "float_le x y = False"

text \<open>
  \<open>math.ceil(x)\<close>: the least int not below a finite \<open>x\<close>, a \<open>ValueError\<close> for a NaN
  and an \<open>OverflowError\<close> for an infinity.
\<close>

fun math_ceil :: "float64 \<Rightarrow> py_error + int" where
  "math_ceil (Finite m e) =
     Inr (if 0 \<le> e then m * 2 ^ nat e else - ((- m) div 2 ^ nat (- e)))"
| "math_ceil NaN = Inl ValueError"
| "math_ceil x = Inl OverflowError"

text \<open>The float written \<open>0.1\<close> and the float \<open>0.25\<close>.\<close>

definition one_tenth :: float64 where
  "one_tenth = Finite 3602879701896397 (- 55)"

definition one_quarter :: float64 where
  "one_quarter = Finite 1 (- 2)"

section \<open>Tensors\<close>

text \<open>
  A tensor as the framework stores a contiguous one: its sizes and its elements in
  row-major order.  Elements are reals: rounding, overflow and underflow of the
  floating-point types are outside this model, which is used for the shapes of
  results only.
\<close>

record tensor =
  sizes :: "nat list"
  elems :: "real list"

definition wf_tensor :: "tensor \<Rightarrow> bool" where
  "wf_tensor t = (length (elems t) = prod_list (sizes t))"

subsection \<open>Broadcasting element-wise operations\<close>

text \<open>A flat position as a multi-index, and back.\<close>

fun unravel :: "nat list \<Rightarrow> nat \<Rightarrow> nat list" where
  "unravel [] k = []"
| "unravel (n # ns) k = (k div prod_list ns) # unravel ns (k mod prod_list ns)"

fun ravel :: "nat list \<Rightarrow> nat list \<Rightarrow> nat" where
  "ravel (n # ns) (i # is) = i * prod_list ns + ravel ns is"
| "ravel ns is = 0"

definition pad_sizes :: "nat \<Rightarrow> nat list \<Rightarrow> nat list" where
  "pad_sizes r s = replicate (r - length s) 1 @ s"

fun broadcast_dims :: "nat list \<Rightarrow> nat list \<Rightarrow> nat list option" where
  "broadcast_dims [] [] = Some []"
| "broadcast_dims (a # as) (b # bs) =
     (case broadcast_dims as bs of
        None \<Rightarrow> None
      | Some r \<Rightarrow>
          if a = b then Some (a # r)
          else if a = 1 then Some (b # r)
          else if b = 1 then Some (a # r)
          else None)"
| "broadcast_dims as bs = None"

definition broadcast_shapes :: "nat list \<Rightarrow> nat list \<Rightarrow> nat list option" where
  "broadcast_shapes s1 s2 =
     (let r = max (length s1) (length s2) in broadcast_dims (pad_sizes r s1) (pad_sizes r s2))"

text \<open>The element of operand \<open>t\<close> that takes part at multi-index \<open>idx\<close> of the result.\<close>

definition operand_at :: "tensor \<Rightarrow> nat list \<Rightarrow> real" where
  "operand_at t idx =
     (let s = pad_sizes (length idx) (sizes t)
      in elems t ! ravel s (map2 (\<lambda>n i. if n = 1 then 0 else i) s idx))"

text \<open>
  \<open>a + b\<close>, \<open>a - b\<close>, \<open>a * b\<close> on tensors: operands of equal sizes are combined
  element by element, other operands are broadcast, and sizes that cannot be
  broadcast raise.
\<close>

definition tensor_binop :: "(real \<Rightarrow> real \<Rightarrow> real) \<Rightarrow> tensor \<Rightarrow> tensor \<Rightarrow> py_error + tensor" where
  "tensor_binop f a b =
     (if sizes a = sizes b then Inr \<lparr> sizes = sizes a, elems = map2 f (elems a) (elems b) \<rparr>
      else case broadcast_shapes (sizes a) (sizes b) of
        None \<Rightarrow> Inl RuntimeError
      | Some s \<Rightarrow>
          Inr \<lparr> sizes = s,
                elems = map (\<lambda>k. f (operand_at a (unravel s k)) (operand_at b (unravel s k)))
                          [0 ..< prod_list s] \<rparr>)"

definition tensor_map :: "(real \<Rightarrow> real) \<Rightarrow> tensor \<Rightarrow> tensor" where
  "tensor_map f t = \<lparr> sizes = sizes t, elems = map f (elems t) \<rparr>"

text \<open>\<open>t[i]\<close> for an integer \<open>i\<close>: the \<open>i\<close>-th slice along the first dimension.\<close>

definition tensor_index :: "tensor \<Rightarrow> int \<Rightarrow> py_error + tensor" where
  "tensor_index t i =
     (case sizes t of
        [] \<Rightarrow> Inl IndexError
      | n # rest \<Rightarrow>
          let j = (if i < 0 then int n + i else i) in
          if 0 \<le> j \<and> j < int n
          then Inr \<lparr> sizes = rest,
                     elems = take (prod_list rest) (drop (nat j * prod_list rest) (elems t)) \<rparr>
          else Inl IndexError)"

subsection \<open>The framework functions the layers call\<close>

text \<open>
  \<open>torch.cat(tensors, dim)\<close>: the tensors agree on every dimension but \<open>dim\<close>; for
  each position of the dimensions before \<open>dim\<close> the result holds the blocks of the
  inputs one after the other.
\<close>

definition torch_cat :: "tensor list \<Rightarrow> int \<Rightarrow> py_error + tensor" where
  "torch_cat ts cat_dim =
     (case ts of
        [] \<Rightarrow> Inl RuntimeError
      | t0 # _ \<Rightarrow>
          let nd = int (length (sizes t0)); d = (if cat_dim < 0 then cat_dim + nd else cat_dim) in
          if nd = 0 then Inl RuntimeError
          else if \<not> (0 \<le> d \<and> d < nd) then Inl IndexError
          else if \<not> list_all (\<lambda>t. length (sizes t) = length (sizes t0)
                               \<and> (sizes t)[nat d := 0] = (sizes t0)[nat d := 0]) ts
            then Inl RuntimeError
          else
            let outer = prod_list (take (nat d) (sizes t0));
                block = (\<lambda>t. prod_list (drop (nat d) (sizes t)))
            in Inr \<lparr> sizes = (sizes t0)[nat d := sum_list (map (\<lambda>t. sizes t ! nat d) ts)],
                     elems = concat (map (\<lambda>out.
                               concat (map (\<lambda>t. take (block t) (drop (out * block t) (elems t))) ts))
                               [0 ..< outer]) \<rparr>)"

section \<open>Blueprint separable convolutions (mon/coreml/layer/custom/blueprint.py)\<close>

subsection \<open>Construction\<close>

text \<open>
  \<open>_size_2_t | str\<close>: an int, a pair of ints, or (for \<open>padding\<close>) a string.
\<close>

datatype size_2_t = SizeInt int | SizePair int int | SizeStr string

text \<open>
  The hyper-parameters handed to \<open>base.Conv2d\<close> (\<open>device\<close> and \<open>dtype\<close> are passed
  through unchanged and are left out).
\<close>

record conv2d =
  in_channels  :: int
  out_channels :: int
  kernel_size  :: size_2_t
  stride       :: size_2_t
  padding      :: size_2_t
  dilation     :: size_2_t
  groups       :: int
  bias         :: bool
  padding_mode :: string

text \<open>
  The attributes of a \<open>SubspaceBlueprintSeparableConv2d\<close>; the attention classes add
  \<open>simam\<close>.  \<open>'c\<close> is the type of a convolution sub-module, \<open>'a\<close> of an activation
  sub-module, \<open>'s\<close> of the attention sub-module.
\<close>

record ('c, 'a) bsconv =
  pw_conv1 :: 'c
  act1     :: "'a option"
  pw_conv2 :: 'c
  act2     :: "'a option"
  dw_conv  :: 'c

record ('c, 'a, 's) absconv = "('c, 'a) bsconv" +
  simam :: 's

text \<open>
  \<open>min(in_channels, max(min_mid_channels, math.ceil(p * in_channels)))\<close>, the
  expression of lines 73 and 248-250.  \<open>p\<close> is a float and \<open>in_channels\<close> an int, so
  the product is a float, rounded; \<open>math\<close> is taken to be the standard module.
\<close>

definition mid_channels :: "int \<Rightarrow> float64 \<Rightarrow> int \<Rightarrow> py_error + int" where
  "mid_channels in_ch p min_mid_channels =
     py_bind (float_times_int p in_ch) (\<lambda>x.
     py_bind (math_ceil x) (\<lambda>k.
     Inr (min in_ch (max min_mid_channels k))))"

definition pointwise :: "int \<Rightarrow> int \<Rightarrow> conv2d" where
  "pointwise i out = \<lparr> in_channels = i, out_channels = out,
     kernel_size = SizeInt 1, stride = SizeInt 1, padding = SizeInt 0,
     dilation = SizeInt 1, groups = 1, bias = False, padding_mode = ''zeros'' \<rparr>"

definition depthwise ::
  "int \<Rightarrow> size_2_t \<Rightarrow> size_2_t \<Rightarrow> size_2_t \<Rightarrow> size_2_t \<Rightarrow> bool \<Rightarrow> string \<Rightarrow> conv2d" where
  "depthwise out ks st pad dil b pm = \<lparr> in_channels = out, out_channels = out,
     kernel_size = ks, stride = st, padding = pad,
     dilation = dil, groups = out, bias = b, padding_mode = pm \<rparr>"

text \<open>
  \<open>SubspaceBlueprintSeparableConv2d.__init__\<close>.  \<open>base.to_act_layer\<close> is defined
  outside the files modelled here and is taken as the parameter \<open>to_act_layer\<close>; the \<open>groups\<close>
  argument of the constructor is accepted and never used.
\<close>

definition SubspaceBlueprintSeparableConv2d_init ::
  "('k option \<Rightarrow> int \<Rightarrow> 'a option) \<Rightarrow> int \<Rightarrow> int \<Rightarrow> size_2_t \<Rightarrow> size_2_t \<Rightarrow> size_2_t
   \<Rightarrow> size_2_t \<Rightarrow> int \<Rightarrow> bool \<Rightarrow> string \<Rightarrow> float64 \<Rightarrow> int \<Rightarrow> 'k option
   \<Rightarrow> py_error + (conv2d, 'a) bsconv" where
  "SubspaceBlueprintSeparableConv2d_init to_act_layer in_ch out_ch ks st pad dil grp b pm p
       min_mid_channels act =
     py_bind (mid_channels in_ch p min_mid_channels) (\<lambda>mid.
       Inr \<lparr> pw_conv1 = pointwise in_ch mid,
             act1     = to_act_layer act mid,
             pw_conv2 = pointwise mid out_ch,
             act2     = to_act_layer act out_ch,
             dw_conv  = depthwise out_ch ks st pad dil b pm \<rparr>)"

text \<open>
  \<open>AttentionSubspaceBlueprintSeparableConv2d.__init__\<close>: the same layout behind
  \<open>assert 0.0 <= p <= 1.0\<close>.  An activation argument \<open>act\<close> is a constructor called with
  \<open>num_features\<close>; \<open>base.SimAM()\<close> is the parameter \<open>new_simam\<close>.
\<close>

definition AttentionSubspaceBlueprintSeparableConv2d_init ::
  "'s \<Rightarrow> int \<Rightarrow> int \<Rightarrow> size_2_t \<Rightarrow> size_2_t \<Rightarrow> size_2_t
   \<Rightarrow> size_2_t \<Rightarrow> int \<Rightarrow> bool \<Rightarrow> string \<Rightarrow> float64 \<Rightarrow> int
   \<Rightarrow> (int \<Rightarrow> 'a) option \<Rightarrow> (int \<Rightarrow> 'a) option
   \<Rightarrow> py_error + (conv2d, 'a, 's) absconv" where
  "AttentionSubspaceBlueprintSeparableConv2d_init new_simam in_ch out_ch ks st pad dil grp b pm p
       min_mid_channels a1 a2 =
     (if \<not> (float_le (Finite 0 0) p \<and> float_le p (Finite 1 0)) then Inl (AssertionError [])
      else
        py_bind (mid_channels in_ch p min_mid_channels) (\<lambda>mid.
          Inr \<lparr> pw_conv1 = pointwise in_ch mid,
                act1     = (case a1 of None \<Rightarrow> None | Some f \<Rightarrow> Some (f mid)),
                pw_conv2 = pointwise mid out_ch,
                act2     = (case a2 of None \<Rightarrow> None | Some f \<Rightarrow> Some (f out_ch)),
                dw_conv  = depthwise out_ch ks st pad dil b pm,
                simam    = new_simam \<rparr>))"

text \<open>A \<open>to_act_layer\<close> that builds no activation, for running the constructor.\<close>

definition no_activation :: "unit option \<Rightarrow> int \<Rightarrow> unit option" where
  "no_activation act num_features = None"

subsection \<open>Forward passes\<close>

text \<open>
  Calling a sub-module on a tensor is the framework's business: \<open>conv\<close>, \<open>act\<close> and
  \<open>attn\<close> give the result of calling a convolution, an activation and the attention
  sub-module.  \<open>'t\<close> is the type of tensors.
\<close>

definition SubspaceBlueprintSeparableConv2d_forward ::
  "('c \<Rightarrow> 't \<Rightarrow> 't) \<Rightarrow> ('a \<Rightarrow> 't \<Rightarrow> 't) \<Rightarrow> ('c, 'a, 'z) bsconv_scheme \<Rightarrow> 't \<Rightarrow> 't" where
  "SubspaceBlueprintSeparableConv2d_forward conv act self input =
     (let x = input;
          y = conv (pw_conv1 self) x;
          y = (case act1 self of None \<Rightarrow> y | Some a \<Rightarrow> act a y);
          y = conv (pw_conv2 self) y;
          y = (case act2 self of None \<Rightarrow> y | Some a \<Rightarrow> act a y);
          y = conv (dw_conv self) y
      in y)"

definition AttentionSubspaceBlueprintSeparableConv2d_forward ::
  "('c \<Rightarrow> 't \<Rightarrow> 't) \<Rightarrow> ('a \<Rightarrow> 't \<Rightarrow> 't) \<Rightarrow> ('s \<Rightarrow> 't \<Rightarrow> 't)
   \<Rightarrow> ('c, 'a, 's) absconv \<Rightarrow> 't \<Rightarrow> 't" where
  "AttentionSubspaceBlueprintSeparableConv2d_forward conv act attn self input =
     (let x = input;
          y = conv (pw_conv1 self) x;
          y = attn (simam self) y;
          y = (case act1 self of None \<Rightarrow> y | Some a \<Rightarrow> act a y);
          y = conv (pw_conv2 self) y;
          y = (case act2 self of None \<Rightarrow> y | Some a \<Rightarrow> act a y);
          y = conv (dw_conv self) y
      in y)"

text \<open>
  \<open>AttentionSubspaceBlueprintSeparableConv2d1.forward\<close>: the attention call and both
  activation calls are commented out in the source.
\<close>

definition AttentionSubspaceBlueprintSeparableConv2d1_forward ::
  "('c \<Rightarrow> 't \<Rightarrow> 't) \<Rightarrow> ('a \<Rightarrow> 't \<Rightarrow> 't) \<Rightarrow> ('s \<Rightarrow> 't \<Rightarrow> 't)
   \<Rightarrow> ('c, 'a, 's) absconv \<Rightarrow> 't \<Rightarrow> 't" where
  "AttentionSubspaceBlueprintSeparableConv2d1_forward conv act attn self input =
     (let x = input;
          x = conv (pw_conv1 self) x;
          x = conv (pw_conv2 self) x;
          x = conv (dw_conv self) x
      in x)"

text \<open>
  A small instance to run the forward passes on: tensors are integers, a
  convolution \<open>(a, b)\<close> maps \<open>x\<close> to \<open>a * x + b\<close>, the activation is a rectifier and
  the attention step negates.
\<close>

definition affine :: "int \<times> int \<Rightarrow> int \<Rightarrow> int" where
  "affine c x = fst c * x + snd c"

definition rectifier :: "unit \<Rightarrow> int \<Rightarrow> int" where
  "rectifier a x = max 0 x"

definition negation :: "unit \<Rightarrow> int \<Rightarrow> int" where
  "negation s x = - x"

definition scalar_absconv :: "(int \<times> int, unit, unit) absconv" where
  "scalar_absconv = \<lparr> pw_conv1 = (2, 1), act1 = Some (), pw_conv2 = (3, 0), act2 = Some (),
     dw_conv = (1, - 5), simam = () \<rparr>"

definition scalar_bsconv :: "(int \<times> int, unit) bsconv" where
  "scalar_bsconv = \<lparr> pw_conv1 = (2, 1), act1 = None, pw_conv2 = (3, 0), act2 = None,
     dw_conv = (1, - 5) \<rparr>"

section \<open>Plugin layers (torchkit/core/layer/plugin.py)\<close>

subsection \<open>ContextBlock\<close>

text \<open>
  What a caller may pass for \<open>fusion_types\<close>: a list, a tuple, or some other iterable
  (a set, a generator), each with its elements in iteration order.
\<close>

datatype 'a py_seq = PyList "'a list" | PyTuple "'a list" | PyIterable "'a list"

fun items :: "'a py_seq \<Rightarrow> 'a list" where
  "items (PyList xs) = xs"
| "items (PyTuple xs) = xs"
| "items (PyIterable xs) = xs"

fun is_list_or_tuple :: "'a py_seq \<Rightarrow> bool" where
  "is_list_or_tuple (PyList xs) = True"
| "is_list_or_tuple (PyTuple xs) = True"
| "is_list_or_tuple (PyIterable xs) = False"

definition valid_fusion_types :: "string list" where
  "valid_fusion_types = [''channel_add'', ''channel_mul'']"

text \<open>
  The four assertions that open \<open>ContextBlock.__init__\<close> (lines 62-66), in the
  source's order; they run before any sub-module is built.
\<close>

definition ContextBlock_init_checks :: "string \<Rightarrow> string py_seq \<Rightarrow> py_error + unit" where
  "ContextBlock_init_checks pooling_type fusion_types =
     (if \<not> List.member [''avg'', ''att''] pooling_type then Inl (AssertionError [])
      else if \<not> is_list_or_tuple fusion_types then Inl (AssertionError [])
      else if \<not> list_all (\<lambda>f. List.member valid_fusion_types f) (items fusion_types)
        then Inl (AssertionError [])
      else if \<not> length (items fusion_types) > 0
        then Inl (AssertionError ''At least one fusion should be used.'')
      else Inr ())"

subsection \<open>Concat\<close>

record Concat =
  cat_dim :: int

definition Concat_init :: "int \<Rightarrow> Concat" where
  "Concat_init d = \<lparr> cat_dim = d \<rparr>"

definition Concat_forward :: "Concat \<Rightarrow> tensor list \<Rightarrow> py_error + tensor" where
  "Concat_forward self x = torch_cat x (cat_dim self)"

subsection \<open>Sum\<close>

text \<open>
  \<open>self.w\<close> exists only when \<open>weight\<close> is set: \<open>-torch.arange(1.0, n) / 2\<close>, the
  \<open>n - 1\<close> values \<open>-1/2, -2/2, ...\<close>.
\<close>

record Sum =
  weight :: bool
  iter   :: "nat list"
  w      :: "tensor option"

definition Sum_init :: "int \<Rightarrow> bool \<Rightarrow> Sum" where
  "Sum_init n wt =
     \<lparr> weight = wt,
       iter   = [0 ..< nat (n - 1)],
       w      = (if wt
                 then Some \<lparr> sizes = [nat (n - 1)],
                             elems = map (\<lambda>k. - real k / 2) [1 ..< nat n] \<rparr>
                 else None) \<rparr>"

definition sigmoid :: "real \<Rightarrow> real" where
  "sigmoid v = 1 / (1 + exp (- v))"

text \<open>\<open>Sum.forward\<close>; \<open>x\<close> is the list of input tensors.\<close>

definition Sum_forward :: "Sum \<Rightarrow> tensor list \<Rightarrow> py_error + tensor" where
  "Sum_forward self x =
     py_bind (py_index x 0) (\<lambda>y.
       if weight self then
         (case w self of
            None \<Rightarrow> Inl AttributeError
          | Some sw \<Rightarrow>
              let w' = tensor_map (\<lambda>v. v * 2) (tensor_map sigmoid sw) in
              py_foldl (\<lambda>y i.
                  py_bind (py_index x (int i + 1)) (\<lambda>xi.
                  py_bind (tensor_index w' (int i)) (\<lambda>wi.
                  py_bind (tensor_binop (\<lambda>u v. u * v) xi wi) (\<lambda>p.
                  tensor_binop (\<lambda>u v. u + v) y p))))
                y (iter self))
       else
         py_foldl (\<lambda>y i.
             py_bind (py_index x (int i + 1)) (\<lambda>xi.
             tensor_binop (\<lambda>u v. u + v) y xi))
           y (iter self))"

text \<open>Two small four-dimensional inputs, with one and with two channels.\<close>

definition one_channel :: tensor where
  "one_channel = \<lparr> sizes = [1, 1, 1, 2], elems = [1, 2] \<rparr>"

definition two_channels :: tensor where
  "two_channels = \<lparr> sizes = [1, 2, 1, 2], elems = [3, 4, 5, 6] \<rparr>"

section \<open>Configuration loading (torchkit/utils.py)\<close>

text \<open>
  The values a configuration holds.  A \<open>PMunch\<close> is a \<open>Munch\<close>: a dictionary whose
  entries are also its attributes.  Keys are strings and listed in insertion order,
  each once.
\<close>

datatype pyval =
    PNone
  | PBool bool
  | PInt int
  | PFloat real
  | PStr string
  | PList "pyval list"
  | PTuple "pyval list"
  | PDict "(string \<times> pyval) list"
  | PMunch "(string \<times> pyval) list"

text \<open>
  \<open>Munch.fromDict\<close> (the library's \<open>munchify\<close>): mappings become \<open>Munch\<close> objects,
  lists and tuples are rebuilt around their converted elements, anything else is kept.
\<close>

fun munchify :: "pyval \<Rightarrow> pyval" where
  "munchify (PDict kvs) = PMunch (map (\<lambda>kv. (fst kv, munchify (snd kv))) kvs)"
| "munchify (PMunch kvs) = PMunch (map (\<lambda>kv. (fst kv, munchify (snd kv))) kvs)"
| "munchify (PList xs) = PList (map munchify xs)"
| "munchify (PTuple xs) = PTuple (map munchify xs)"
| "munchify v = v"

text \<open>Attribute access on the returned namespace.\<close>

fun getattr :: "pyval \<Rightarrow> string \<Rightarrow> pyval option" where
  "getattr (PMunch kvs) k = map_of kvs k"
| "getattr v k = None"

text \<open>
  \<open>load_config\<close>.  \<open>torchkit.core.fileio.load\<close> is defined outside the files modelled
  here; it is the parameter \<open>load\<close>, giving what a path loads as.
\<close>

definition load_config :: "(string \<Rightarrow> pyval) \<Rightarrow> pyval \<Rightarrow> py_error + pyval" where
  "load_config load config =
     py_bind
       (case config of
          PStr path \<Rightarrow> Inr (load path)
        | PDict kvs \<Rightarrow> Inr config
        | PMunch kvs \<Rightarrow> Inr config
        | _ \<Rightarrow> Inl ValueError)
       (\<lambda>config_dict.
          if config_dict = PNone
          then Inl (AssertionError
                 (''No configuration is found at '' @ (case config of PStr path \<Rightarrow> path | _ \<Rightarrow> []) @ ''!''))
          else Inr (munchify config_dict))"

text \<open>A loader that knows one file.\<close>

definition config_file :: "string \<Rightarrow> pyval" where
  "config_file path =
     (if path = ''data.yaml''
      then PDict [(''name'', PStr ''cityscapes_lol''), (''batch_size'', PInt 4),
                  (''augment'', PDict [(''mosaic'', PBool True)])]
      else PNone)"

section \<open>The layer registry\<close>

text \<open>
  The registry object \<open>LAYERS\<close> of \<open>mon.globals\<close> is defined outside the files
  modelled here; \<open>blueprint.py\<close> only calls its \<open>register\<close> method.  The
  specification describes it as a mapping from names to layer constructors.
\<close>

type_synonym ('k, 'l) registry = "string \<rightharpoonup> ('k \<Rightarrow> 'l)"

text \<open>
  Modelled from the spec: \<open>LAYERS.register\<close>, which is missing.  The registry accepts
  a string key, and duplicate registration is an error.
\<close>

definition register ::
  "string \<Rightarrow> ('k \<Rightarrow> 'l) \<Rightarrow> ('k, 'l) registry \<Rightarrow> py_error + ('k, 'l) registry" where
  "register name ctor reg =
     (case reg name of
        Some other \<Rightarrow> Inl (KeyError name)
      | None \<Rightarrow> Inr (reg(name \<mapsto> ctor)))"

text \<open>
  Modelled from the spec: the registry's lookup, which is missing.  It accepts a
  string key and keyword arguments and returns a constructed layer instance.
\<close>

definition build :: "string \<Rightarrow> 'k \<Rightarrow> ('k, 'l) registry \<Rightarrow> py_error + 'l" where
  "build name kwargs reg =
     (case reg name of
        None \<Rightarrow> Inl (KeyError name)
      | Some ctor \<Rightarrow> Inr (ctor kwargs))"

text \<open>Two constructors to register, telling their layers apart by a number.\<close>

definition first_ctor :: "unit \<Rightarrow> nat" where
  "first_ctor kwargs = 1"

definition second_ctor :: "unit \<Rightarrow> nat" where
  "second_ctor kwargs = 2"

section \<open>The Cityscapes LoL dataset (torchkit/datasets/cityscapes/cityscapes_lol.py)\<close>

subsection \<open>Library functions the listing calls\<close>

text \<open>\<open>str.replace(old, new)\<close>: every non-overlapping occurrence, left to right.\<close>

fun py_replace :: "string \<Rightarrow> string \<Rightarrow> string \<Rightarrow> string" where
  "py_replace [] old new = (if old = [] then new else [])"
| "py_replace (c # cs) old new =
     (if old = [] then new @ c # py_replace cs old new
      else if take (length old) (c # cs) = old
        then new @ py_replace (drop (length old) (c # cs)) old new
      else c # py_replace cs old new)"

text \<open>\<open>os.path.join\<close> on a POSIX system.\<close>

definition join2 :: "string \<Rightarrow> string \<Rightarrow> string" where
  "join2 path b =
     (if take 1 b = ''/'' then b
      else if path = [] \<or> last path = CHR ''/'' then path @ b
      else path @ ''/'' @ b)"

definition os_path_join :: "string \<Rightarrow> string list \<Rightarrow> string" where
  "os_path_join a p = foldl join2 a p"

text \<open>\<open>str(n)\<close> for a count.\<close>

definition digit_char :: "nat \<Rightarrow> char" where
  "digit_char n = ''0123456789'' ! n"

function str_nat :: "nat \<Rightarrow> string" where
  "str_nat n = (if n < 10 then [digit_char n] else str_nat (n div 10) @ [digit_char (n mod 10)])"
  by pat_completeness auto
termination
  by (relation "measure id") auto

declare str_nat.simps [simp del]

text \<open>
  \<open>random.randint(a, b)\<close>: \<open>ValueError\<close> on an empty range, otherwise a value of
  \<open>[a, b]\<close>.  The generator's raw output \<open>r\<close> is a parameter.
\<close>

definition randint :: "nat \<Rightarrow> int \<Rightarrow> int \<Rightarrow> py_error + int" where
  "randint r a b = (if a > b then Inl ValueError else Inr (a + int (r mod nat (b - a + 1))))"

text \<open>A list comprehension whose element expression may raise: the first error wins.\<close>

fun collect :: "(py_error + 'a) list \<Rightarrow> py_error + 'a list" where
  "collect [] = Inr []"
| "collect (x # xs) =
     (case x of Inl e \<Rightarrow> Inl e
      | Inr v \<Rightarrow> (case collect xs of Inl e \<Rightarrow> Inl e | Inr vs \<Rightarrow> Inr (v # vs)))"

subsection \<open>The dataset object and its surroundings\<close>

record CityscapesLoL =
  root              :: string
  split             :: string
  fast_dev_run      :: bool
  batch_size        :: int
  image_paths       :: "string list"
  eimage_paths      :: "string list"
  label_paths       :: "string list"
  has_custom_labels :: bool

text \<open>
  The file system and the random generator as the listing sees them: what
  \<open>glob.glob\<close> returns for a pattern, what \<open>os.path.isfile\<close> answers, and the raw
  output of the \<open>k\<close>-th random draw.
\<close>

record py_env =
  glob_glob  :: "string \<Rightarrow> string list"
  isfile     :: "string \<Rightarrow> bool"
  raw_random :: "nat \<Rightarrow> nat"

text \<open>Lines 213-216: the pattern handed to \<open>glob.glob\<close> and what it finds.\<close>

definition image_pattern :: "CityscapesLoL \<Rightarrow> string" where
  "image_pattern self = os_path_join (root self) [''lol'', split self, ''low'', ''*.png'']"

definition discovered :: "py_env \<Rightarrow> CityscapesLoL \<Rightarrow> string list" where
  "discovered env self = glob_glob env (image_pattern self)"

text \<open>
  Lines 218-222: the paths the loop of \<open>list_files\<close> runs over.  In fast-dev-run mode
  these are \<open>batch_size\<close> random picks (with repetition) among the paths found.
\<close>

definition enumerated :: "py_env \<Rightarrow> CityscapesLoL \<Rightarrow> py_error + string list" where
  "enumerated env self =
     (let found = discovered env self
      in if fast_dev_run self then
           (case collect (map (\<lambda>k. randint (raw_random env k) 0 (int (length found) - 1))
                            [0 ..< nat (batch_size self)]) of
              Inl e \<Rightarrow> Inl e
            | Inr indices \<Rightarrow> collect (map (\<lambda>i. py_index found i) indices))
         else Inr found)"

definition label_path_of :: "string \<Rightarrow> string" where
  "label_path_of image_path =
     py_replace (py_replace image_path ''low'' ''customs'') ''.png'' ''.json''"

text \<open>Lines 226-232: one turn of the loop.\<close>

definition list_step :: "py_env \<Rightarrow> CityscapesLoL \<Rightarrow> string \<Rightarrow> CityscapesLoL" where
  "list_step env self image_path =
     (let eimage_path = py_replace image_path ''low'' ''high'';
          label_path  = label_path_of image_path
      in self \<lparr> image_paths       := image_paths self @ [image_path],
                eimage_paths      := eimage_paths self @ [eimage_path],
                label_paths       := label_paths self @ [label_path],
                has_custom_labels := isfile env label_path \<rparr>)"

definition count_message :: "nat \<Rightarrow> nat \<Rightarrow> string" where
  "count_message a b =
     ''Number of images != Number of enhanced images: '' @ str_nat a @ '' != '' @ str_nat b @ ''.''"

definition list_files :: "py_env \<Rightarrow> CityscapesLoL \<Rightarrow> py_error + CityscapesLoL" where
  "list_files env self =
     (case enumerated env self of
        Inl e \<Rightarrow> Inl e
      | Inr paths \<Rightarrow>
          let self' = foldl (list_step env) self paths in
          if length (image_paths self') = length (eimage_paths self') then Inr self'
          else Inl (AssertionError
                 (count_message (length (image_paths self')) (length (eimage_paths self')))))"

text \<open>
  \<open>load_labels\<close>.  The two ways of building the sample are calls into code outside
  this file; the result records which call is made and with what.
\<close>

datatype vision_data =
    VisualDataHandler_load_from_file string string string
  | VisionData_from_image_info string string

definition load_labels ::
  "CityscapesLoL \<Rightarrow> string \<Rightarrow> string \<Rightarrow> string option \<Rightarrow> vision_data" where
  "load_labels self image_path eimage_path label_path =
     (case label_path of
        Some lp \<Rightarrow>
          if has_custom_labels self \<and> lp \<noteq> []
          then VisualDataHandler_load_from_file image_path lp eimage_path
          else VisionData_from_image_info image_path eimage_path
      | None \<Rightarrow> VisionData_from_image_info image_path eimage_path)"

subsection \<open>Concrete directories and dataset objects\<close>

text \<open>
  An empty split directory, and one with two images of which only the second has a
  custom label file; a generator whose \<open>k\<close>-th raw output is \<open>k\<close>.
\<close>

definition no_files :: "string \<Rightarrow> string list" where
  "no_files pattern = []"

definition two_files :: "string \<Rightarrow> string list" where
  "two_files pattern =
     (if pattern = ''/data/lol/train/low/*.png''
      then [''/data/lol/train/low/a.png'', ''/data/lol/train/low/b.png''] else [])"

definition only_b_labelled :: "string \<Rightarrow> bool" where
  "only_b_labelled path = (path = ''/data/lol/train/customs/b.json'')"

definition counter :: "nat \<Rightarrow> nat" where
  "counter k = k"

definition empty_dir :: py_env where
  "empty_dir = \<lparr> glob_glob = no_files, isfile = only_b_labelled, raw_random = counter \<rparr>"

definition two_images :: py_env where
  "two_images = \<lparr> glob_glob = two_files, isfile = only_b_labelled, raw_random = counter \<rparr>"

definition fresh_dataset :: "bool \<Rightarrow> int \<Rightarrow> CityscapesLoL" where
  "fresh_dataset fdr bs =
     \<lparr> root = ''/data'', split = ''train'', fast_dev_run = fdr, batch_size = bs,
       image_paths = [], eimage_paths = [], label_paths = [], has_custom_labels = False \<rparr>"

section \<open>Properties\<close>

subsection \<open>The dataset listing\<close>

lemma collect_map_Inr:
  "(\<And>x. x \<in> set xs \<Longrightarrow> f x = Inr (g x)) \<Longrightarrow> collect (map f xs) = Inr (map g xs)"
  by (induction xs) auto

lemma randint_in_range:
  "0 < n \<Longrightarrow> randint r 0 (int n - 1) = Inr (int (r mod n))"
  by (simp add: randint_def)

lemma py_index_in_range:
  "i < length xs \<Longrightarrow> py_index xs (int i) = Inr (xs ! i)"
  by (simp add: py_index_def)

lemma enumerated_fast_dev_run:
  assumes "fast_dev_run self" and "discovered env self = found"
    and "found \<noteq> []"
  shows "enumerated env self =
           Inr (map (\<lambda>k. found ! (raw_random env k mod length found)) [0 ..< nat (batch_size self)])"
proof -
  have n: "0 < length found" using assms(3) by simp
  have 1: "collect (map (\<lambda>k. randint (raw_random env k) 0 (int (length found) - 1))
             [0 ..< nat (batch_size self)])
           = Inr (map (\<lambda>k. int (raw_random env k mod length found)) [0 ..< nat (batch_size self)])"
    by (rule collect_map_Inr) (simp add: randint_in_range [OF n])
  have 2: "collect (map (py_index found \<circ> (\<lambda>k. int (raw_random env k mod length found)))
             [0 ..< nat (batch_size self)])
           = Inr (map (\<lambda>k. found ! (raw_random env k mod length found)) [0 ..< nat (batch_size self)])"
    by (rule collect_map_Inr)
       (simp only: comp_apply, rule py_index_in_range, rule mod_less_divisor, rule n)
  show ?thesis
    using assms(1,2) by (simp add: enumerated_def Let_def 1 2)
qed

lemma enumerated_empty:
  assumes "fast_dev_run self" and "discovered env self = []"
    and "0 < batch_size self"
  shows "enumerated env self = Inl ValueError"
proof -
  obtain m where m: "nat (batch_size self) = Suc m"
    using assms(3) by (cases "nat (batch_size self)") auto
  show ?thesis
    using assms(1,2) by (simp add: enumerated_def Let_def m upt_rec [of 0] randint_def)
qed

lemma foldl_list_step_image_paths:
  "image_paths (foldl (list_step env) self ps) = image_paths self @ ps"
  by (induction ps arbitrary: self) (simp_all add: list_step_def Let_def)

lemma foldl_list_step_eimage_paths:
  "eimage_paths (foldl (list_step env) self ps)
     = eimage_paths self @ map (\<lambda>p. py_replace p ''low'' ''high'') ps"
  by (induction ps arbitrary: self) (simp_all add: list_step_def Let_def)

lemma foldl_list_step_label_paths:
  "label_paths (foldl (list_step env) self ps) = label_paths self @ map label_path_of ps"
  by (induction ps arbitrary: self) (simp_all add: list_step_def Let_def)

lemma foldl_list_step_has_custom_labels:
  "has_custom_labels (foldl (list_step env) self ps)
     = (if ps = [] then has_custom_labels self else isfile env (label_path_of (last ps)))"
  by (induction ps arbitrary: self) (simp_all add: list_step_def Let_def)

lemma foldl_list_step_config:
  "root (foldl (list_step env) self ps) = root self
   \<and> split (foldl (list_step env) self ps) = split self
   \<and> fast_dev_run (foldl (list_step env) self ps) = fast_dev_run self
   \<and> batch_size (foldl (list_step env) self ps) = batch_size self"
  by (induction ps arbitrary: self) (simp_all add: list_step_def Let_def)

lemma list_files_unfold:
  "enumerated env self = Inr ps \<Longrightarrow>
   list_files env self =
     (if length (image_paths self) + length ps = length (eimage_paths self) + length ps
      then Inr (foldl (list_step env) self ps)
      else Inl (AssertionError (count_message (length (image_paths self) + length ps)
                                              (length (eimage_paths self) + length ps))))"
  by (simp add: list_files_def Let_def foldl_list_step_image_paths foldl_list_step_eimage_paths)

text \<open>
  C2, as amended.  In fast-dev-run mode, when at least one image file was discovered
  and \<open>batch_size\<close> is not negative, the loop of \<open>list_files\<close> runs over exactly
  \<open>batch_size\<close> paths, each of them one of the discovered paths, and (the two path
  lists being equally long on entry) \<open>list_files\<close> returns with these paths appended
  to \<open>image_paths\<close>.
\<close>

theorem fast_dev_run_batch:
  assumes "fast_dev_run self" and "discovered env self \<noteq> []" and "0 \<le> batch_size self"
    and "length (image_paths self) = length (eimage_paths self)"
  shows "\<exists>ps self'. enumerated env self = Inr ps
           \<and> int (length ps) = batch_size self
           \<and> set ps \<subseteq> set (discovered env self)
           \<and> list_files env self = Inr self'
           \<and> image_paths self' = image_paths self @ ps"
proof -
  let ?found = "discovered env self"
  let ?ps = "map (\<lambda>k. ?found ! (raw_random env k mod length ?found)) [0 ..< nat (batch_size self)]"
  have e: "enumerated env self = Inr ?ps"
    using assms(1,2) by (simp add: enumerated_fast_dev_run)
  have len: "int (length ?ps) = batch_size self"
    using assms(3) by simp
  have "?found ! (raw_random env k mod length ?found) \<in> set ?found" for k
    using assms(2) by (intro nth_mem mod_less_divisor) simp
  then have sub: "set ?ps \<subseteq> set ?found"
    by auto
  have lf: "list_files env self = Inr (foldl (list_step env) self ?ps)"
    using assms(4) by (simp add: list_files_unfold [OF e])
  show ?thesis
    using e len sub lf foldl_list_step_image_paths by blast
qed

lemma two_images_discovered:
  "discovered two_images (fresh_dataset fdr bs)
     = [''/data/lol/train/low/a.png'', ''/data/lol/train/low/b.png'']"
  by (simp add: fresh_dataset_def two_images_def discovered_def image_pattern_def
        os_path_join_def join2_def two_files_def)

lemma fresh_dataset_simps:
  "fast_dev_run (fresh_dataset fdr bs) = fdr"
  "batch_size (fresh_dataset fdr bs) = bs"
  "image_paths (fresh_dataset fdr bs) = []"
  "eimage_paths (fresh_dataset fdr bs) = []"
  "label_paths (fresh_dataset fdr bs) = []"
  "has_custom_labels (fresh_dataset fdr bs) = False"
  by (simp_all add: fresh_dataset_def)

theorem fast_dev_run_batch_witness:
  "\<exists>ps self'. enumerated two_images (fresh_dataset True 3) = Inr ps
           \<and> int (length ps) = 3
           \<and> list_files two_images (fresh_dataset True 3) = Inr self'
           \<and> image_paths self' = ps"
proof -
  have "\<exists>ps self'. enumerated two_images (fresh_dataset True 3) = Inr ps
           \<and> int (length ps) = batch_size (fresh_dataset True 3)
           \<and> set ps \<subseteq> set (discovered two_images (fresh_dataset True 3))
           \<and> list_files two_images (fresh_dataset True 3) = Inr self'
           \<and> image_paths self' = image_paths (fresh_dataset True 3) @ ps"
    by (rule fast_dev_run_batch) (simp_all add: fresh_dataset_simps two_images_discovered)
  then show ?thesis
    by (simp add: fresh_dataset_simps) blast
qed

text \<open>
  C2 as stated fails when no image file is discovered: in fast-dev-run mode with
  \<open>batch_size = 4\<close> the first \<open>random.randint(0, -1)\<close> raises \<open>ValueError\<close> and no
  path is selected.
\<close>

theorem fast_dev_run_empty_listing:
  "list_files empty_dir (fresh_dataset True 4) = Inl ValueError"
  by (simp add: list_files_def enumerated_empty fresh_dataset_def empty_dir_def discovered_def
        no_files_def)

text \<open>
  C10.  After \<open>list_files\<close> returns on a non-empty listing, \<open>has_custom_labels\<close> says
  whether the label file of the last enumerated image exists, and \<open>load_labels\<close>
  decides by that one flag (and the label path being non-empty) for whatever sample
  it is asked about.
\<close>

theorem single_label_flag:
  assumes "enumerated env self = Inr ps" and "ps \<noteq> []" and "list_files env self = Inr self'"
  shows "has_custom_labels self' = isfile env (label_path_of (last ps))
       \<and> load_labels self' image_path eimage_path label_path =
           (case label_path of
              Some lp \<Rightarrow>
                if isfile env (label_path_of (last ps)) \<and> lp \<noteq> []
                then VisualDataHandler_load_from_file image_path lp eimage_path
                else VisionData_from_image_info image_path eimage_path
            | None \<Rightarrow> VisionData_from_image_info image_path eimage_path)"
proof -
  have "self' = foldl (list_step env) self ps"
    using assms(3) by (simp add: list_files_unfold [OF assms(1)] split: if_splits)
  then have h: "has_custom_labels self' = isfile env (label_path_of (last ps))"
    using assms(2) by (simp add: foldl_list_step_has_custom_labels)
  show ?thesis
    by (simp add: h load_labels_def split: option.splits)
qed

theorem single_label_flag_witness:
  "\<exists>self'. list_files two_images (fresh_dataset False 4) = Inr self'
     \<and> \<not> isfile two_images ''/data/lol/train/customs/a.json''
     \<and> has_custom_labels self'
     \<and> load_labels self' ''/data/lol/train/low/a.png'' ''/data/lol/train/high/a.png''
           (Some ''/data/lol/train/customs/a.json'')
         = VisualDataHandler_load_from_file ''/data/lol/train/low/a.png''
             ''/data/lol/train/customs/a.json'' ''/data/lol/train/high/a.png''"
proof -
  let ?d = "fresh_dataset False 4"
  let ?ps = "[''/data/lol/train/low/a.png'', ''/data/lol/train/low/b.png'']"
  have e: "enumerated two_images ?d = Inr ?ps"
    by (simp add: enumerated_def fresh_dataset_simps two_images_discovered)
  have lf: "list_files two_images ?d = Inr (foldl (list_step two_images) ?d ?ps)"
    by (simp add: list_files_unfold [OF e] fresh_dataset_simps)
  have ne: "?ps \<noteq> []" by simp
  have l: "isfile two_images (label_path_of (last ?ps))"
    by (simp add: two_images_def only_b_labelled_def label_path_of_def)
  have a: "\<not> isfile two_images ''/data/lol/train/customs/a.json''"
    by (simp add: two_images_def only_b_labelled_def)
  show ?thesis
    using single_label_flag [OF e ne lf, of "''/data/lol/train/low/a.png''"
        "''/data/lol/train/high/a.png''" "Some ''/data/lol/train/customs/a.json''"] l a lf
    by simp
qed

text \<open>
  C7.  The assertions of \<open>ContextBlock.__init__\<close> raise when \<open>pooling_type\<close> is neither
  \<open>avg\<close> nor \<open>att\<close>, when some fusion type is outside \<open>channel_add\<close>, \<open>channel_mul\<close>,
  and when there is no fusion type; with a valid pooling type and a non-empty
  sequence of valid fusion types none of these three raises, the only assertion left
  being that \<open>fusion_types\<close> is a list or a tuple.
\<close>

theorem context_block_checks:
  "(\<not> List.member [''avg'', ''att''] pooling_type \<longrightarrow>
      isl (ContextBlock_init_checks pooling_type fusion_types))
   \<and> ((\<exists>f \<in> set (items fusion_types). \<not> List.member [''channel_add'', ''channel_mul''] f) \<longrightarrow>
      isl (ContextBlock_init_checks pooling_type fusion_types))
   \<and> (items fusion_types = [] \<longrightarrow>
      isl (ContextBlock_init_checks pooling_type fusion_types))
   \<and> (List.member [''avg'', ''att''] pooling_type
        \<and> (\<forall>f \<in> set (items fusion_types). List.member [''channel_add'', ''channel_mul''] f)
        \<and> items fusion_types \<noteq> [] \<longrightarrow>
      ContextBlock_init_checks pooling_type fusion_types =
        (if is_list_or_tuple fusion_types then Inr () else Inl (AssertionError [])))"
  by (auto simp: ContextBlock_init_checks_def valid_fusion_types_def list_all_iff)

theorem context_block_checks_witness:
  "isl (ContextBlock_init_checks ''max'' (PyTuple [''channel_add'']))
   \<and> isl (ContextBlock_init_checks ''att'' (PyList [''channel_add'', ''channels_add'']))
   \<and> ContextBlock_init_checks ''att'' (PyTuple [])
       = Inl (AssertionError ''At least one fusion should be used.'')
   \<and> ContextBlock_init_checks ''att'' (PyTuple [''channel_add'']) = Inr ()
   \<and> ContextBlock_init_checks ''avg'' (PyList [''channel_mul'', ''channel_add'']) = Inr ()"
  using context_block_checks [of "''max''" "PyTuple [''channel_add'']"]
    context_block_checks [of "''att''" "PyList [''channel_add'', ''channels_add'']"]
    context_block_checks [of "''att''" "PyTuple [''channel_add'']"]
    context_block_checks [of "''avg''" "PyList [''channel_mul'', ''channel_add'']"]
  by (simp add: ContextBlock_init_checks_def valid_fusion_types_def)

text \<open>
  C8.  \<open>AttentionSubspaceBlueprintSeparableConv2d1.forward\<close> is the chain of the three
  convolutions, whatever the attention and activation sub-modules are, and so equals
  \<open>SubspaceBlueprintSeparableConv2d.forward\<close> of a layer with the same convolutions
  and no activations.
\<close>

theorem abs1_forward_is_plain_chain:
  assumes "pw_conv1 L' = pw_conv1 L" and "pw_conv2 L' = pw_conv2 L" and "dw_conv L' = dw_conv L"
    and "act1 L' = None" and "act2 L' = None"
  shows "AttentionSubspaceBlueprintSeparableConv2d1_forward conv act attn L x
           = conv (dw_conv L) (conv (pw_conv2 L) (conv (pw_conv1 L) x))
       \<and> SubspaceBlueprintSeparableConv2d_forward conv act L' x
           = AttentionSubspaceBlueprintSeparableConv2d1_forward conv act attn L x"
  using assms
  by (simp add: AttentionSubspaceBlueprintSeparableConv2d1_forward_def
        SubspaceBlueprintSeparableConv2d_forward_def)

theorem abs1_forward_is_plain_chain_witness:
  "AttentionSubspaceBlueprintSeparableConv2d1_forward affine rectifier negation scalar_absconv (- 4)
     = - 26
   \<and> SubspaceBlueprintSeparableConv2d_forward affine rectifier scalar_bsconv (- 4) = - 26
   \<and> AttentionSubspaceBlueprintSeparableConv2d_forward affine rectifier negation scalar_absconv (- 4)
     = 16"
  using abs1_forward_is_plain_chain [of scalar_bsconv scalar_absconv affine rectifier negation "- 4"]
  by (simp add: scalar_bsconv_def scalar_absconv_def affine_def rectifier_def negation_def
        AttentionSubspaceBlueprintSeparableConv2d_forward_def
        AttentionSubspaceBlueprintSeparableConv2d1_forward_def)

subsection \<open>Configuration loading\<close>

lemma getattr_munchify_entries:
  "map_of (map (\<lambda>kv. (fst kv, munchify (snd kv))) kvs) k = map_option munchify (map_of kvs k)"
  by (induction kvs) auto

text \<open>
  C5.  When the file at \<open>path\<close> loads as the mapping \<open>m\<close>, \<open>load_config\<close> of the path
  and \<open>load_config\<close> of \<open>m\<close> itself return the same namespace, whose attributes are the
  keys of \<open>m\<close> with the converted values of \<open>m\<close>.
\<close>

theorem load_config_file_or_dict:
  assumes "load path = PDict m"
  shows "load_config load (PStr path) = load_config load (PDict m)
       \<and> (\<exists>ns. load_config load (PDict m) = Inr ns
             \<and> (\<forall>k. getattr ns k = map_option munchify (map_of m k)))"
  using assms by (simp add: load_config_def py_bind_def getattr_munchify_entries)

theorem load_config_file_or_dict_witness:
  "load_config config_file (PStr ''data.yaml'')
     = Inr (PMunch [(''name'', PStr ''cityscapes_lol''), (''batch_size'', PInt 4),
                    (''augment'', PMunch [(''mosaic'', PBool True)])])
   \<and> load_config config_file
       (PDict [(''name'', PStr ''cityscapes_lol''), (''batch_size'', PInt 4),
               (''augment'', PDict [(''mosaic'', PBool True)])])
     = Inr (PMunch [(''name'', PStr ''cityscapes_lol''), (''batch_size'', PInt 4),
                    (''augment'', PMunch [(''mosaic'', PBool True)])])"
  using load_config_file_or_dict [of config_file "''data.yaml''"
      "[(''name'', PStr ''cityscapes_lol''), (''batch_size'', PInt 4),
        (''augment'', PDict [(''mosaic'', PBool True)])]"]
  by (simp add: config_file_def load_config_def py_bind_def)

subsection \<open>The layer registry\<close>

text \<open>
  C6.  Registering a constructor under a name the registry already holds is an error:
  \<open>register\<close> raises and yields no registry in which the entry would be replaced.
\<close>

theorem duplicate_registration_is_an_error:
  assumes "name \<in> dom reg"
  shows "register name ctor reg = Inl (KeyError name)"
  using assms by (auto simp: register_def)

theorem duplicate_registration_is_an_error_witness:
  "\<exists>reg. register ''BSConv2dS'' first_ctor Map.empty = Inr reg
     \<and> register ''BSConv2dS'' second_ctor reg = Inl (KeyError ''BSConv2dS'')"
proof -
  let ?reg = "Map.empty(''BSConv2dS'' \<mapsto> first_ctor)"
  have "''BSConv2dS'' \<in> dom ?reg" by simp
  from duplicate_registration_is_an_error [OF this]
  have "register ''BSConv2dS'' second_ctor ?reg = Inl (KeyError ''BSConv2dS'')" .
  moreover have "register ''BSConv2dS'' first_ctor Map.empty = Inr ?reg"
    by (simp add: register_def)
  ultimately show ?thesis by blast
qed

subsection \<open>Concat and Sum\<close>

lemma py_foldl_invariant:
  assumes "P acc"
    and "\<And>a x. P a \<Longrightarrow> x \<in> set xs \<Longrightarrow> \<exists>a'. f a x = Inr a' \<and> P a'"
  shows "\<exists>r. py_foldl f acc xs = Inr r \<and> P r"
  using assms
proof (induction xs arbitrary: acc)
  case Nil
  then show ?case by simp
next
  case (Cons x xs)
  from Cons.prems obtain a' where a: "f acc x = Inr a'" "P a'"
    by (meson list.set_intros(1))
  have "\<exists>r. py_foldl f a' xs = Inr r \<and> P r"
    by (rule Cons.IH [OF a(2)]) (simp add: Cons.prems(2))
  then show ?case
    using a(1) by simp
qed

lemma tensor_binop_same_sizes:
  assumes "sizes a = s" and "sizes b = s" and "wf_tensor a" and "wf_tensor b"
  shows "\<exists>r. tensor_binop f a b = Inr r \<and> sizes r = s \<and> wf_tensor r"
  using assms by (simp add: tensor_binop_def wf_tensor_def)

lemma broadcast_dims_ones: "broadcast_dims s (replicate (length s) (Suc 0)) = Some s"
  by (induction s) auto

lemma tensor_binop_scalar:
  assumes "sizes b = []" and "wf_tensor a" and "wf_tensor b"
  shows "\<exists>r. tensor_binop f a b = Inr r \<and> sizes r = sizes a \<and> wf_tensor r"
proof (cases "sizes a = []")
  case True
  then show ?thesis
    using assms by (simp add: tensor_binop_same_sizes)
next
  case False
  have "broadcast_shapes (sizes a) [] = Some (sizes a)"
    by (simp add: broadcast_shapes_def pad_sizes_def broadcast_dims_ones)
  then show ?thesis
    using False assms(1) by (simp add: tensor_binop_def wf_tensor_def)
qed

lemma tensor_index_vector:
  assumes "sizes t = [n]" and "wf_tensor t" and "i < n"
  shows "\<exists>r. tensor_index t (int i) = Inr r \<and> sizes r = [] \<and> wf_tensor r"
  using assms by (simp add: tensor_index_def wf_tensor_def)

lemma sum_keeps_shape:
  assumes "0 < n" and "length x = nat n"
    and "\<forall>t \<in> set x. sizes t = s \<and> wf_tensor t"
  shows "\<exists>y. Sum_forward (Sum_init n wt) x = Inr y \<and> sizes y = s \<and> wf_tensor y"
proof -
  let ?P = "\<lambda>y. sizes y = s \<and> wf_tensor y"
  have nth: "?P (x ! i)" if "i < nat n" for i
    using assms(2,3) that by simp
  have x0: "py_index x 0 = Inr (x ! 0)"
    using assms(1,2) by (simp add: py_index_def)
  have P0: "?P (x ! 0)"
    using assms(1) by (intro nth) simp
  have xi: "py_index x (int i + 1) = Inr (x ! Suc i)" if "i \<in> set [0 ..< nat (n - 1)]" for i
  proof -
    have "Suc i < length x" using that assms(1,2) by auto
    then show ?thesis
      by (simp add: py_index_def nat_add_distrib)
  qed
  have Pi: "?P (x ! Suc i)" if "i \<in> set [0 ..< nat (n - 1)]" for i
    using that assms(1) by (intro nth) auto
  show ?thesis
  proof (cases wt)
    case False
    have "\<exists>r. py_foldl (\<lambda>y i. py_bind (py_index x (int i + 1))
                 (\<lambda>xi. tensor_binop (\<lambda>u v. u + v) y xi)) (x ! 0) [0 ..< nat (n - 1)] = Inr r \<and> ?P r"
    proof (rule py_foldl_invariant [where P = ?P, OF P0])
      fix a i
      assume a: "?P a" and i: "i \<in> set [0 ..< nat (n - 1)]"
      show "\<exists>a'. py_bind (py_index x (int i + 1)) (\<lambda>xi. tensor_binop (\<lambda>u v. u + v) a xi) = Inr a'
              \<and> ?P a'"
        using tensor_binop_same_sizes [of a s "x ! Suc i" "\<lambda>u v. u + v"] a Pi [OF i]
        by (simp add: xi [OF i] py_bind_def)
    qed
    then show ?thesis
      using False by (simp add: Sum_forward_def Sum_init_def x0 py_bind_def)
  next
    case True
    let ?w = "tensor_map (\<lambda>v. v * 2) (tensor_map sigmoid
                \<lparr> sizes = [nat (n - 1)], elems = map (\<lambda>k. - real k / 2) [1 ..< nat n] \<rparr>)"
    have ws: "sizes ?w = [nat (n - 1)]" and ww: "wf_tensor ?w"
      using assms(1) by (simp_all add: tensor_map_def wf_tensor_def nat_diff_distrib)
    have "\<exists>r. py_foldl (\<lambda>y i.
                  py_bind (py_index x (int i + 1)) (\<lambda>xi.
                  py_bind (tensor_index ?w (int i)) (\<lambda>wi.
                  py_bind (tensor_binop (\<lambda>u v. u * v) xi wi) (\<lambda>p.
                  tensor_binop (\<lambda>u v. u + v) y p))))
                (x ! 0) [0 ..< nat (n - 1)] = Inr r \<and> ?P r"
    proof (rule py_foldl_invariant [where P = ?P, OF P0])
      fix a i
      assume a: "?P a" and i: "i \<in> set [0 ..< nat (n - 1)]"
      from i have "i < nat (n - 1)" by simp
      from tensor_index_vector [OF ws ww this]
      obtain wi where wi: "tensor_index ?w (int i) = Inr wi" "sizes wi = []" "wf_tensor wi"
        by blast
      from tensor_binop_scalar [OF wi(2) _ wi(3), of "x ! Suc i" "\<lambda>u v. u * v"] Pi [OF i]
      obtain p where p: "tensor_binop (\<lambda>u v. u * v) (x ! Suc i) wi = Inr p" "?P p"
        by auto
      from tensor_binop_same_sizes [of a s p "\<lambda>u v. u + v"] a p(2)
      obtain r where r: "tensor_binop (\<lambda>u v. u + v) a p = Inr r" "?P r"
        by auto
      show "\<exists>a'. py_bind (py_index x (int i + 1)) (\<lambda>xi.
                  py_bind (tensor_index ?w (int i)) (\<lambda>wi.
                  py_bind (tensor_binop (\<lambda>u v. u * v) xi wi) (\<lambda>p.
                  tensor_binop (\<lambda>u v. u + v) a p))) = Inr a' \<and> ?P a'"
        using r by (simp only: xi [OF i] wi(1) p(1) py_bind_def sum.case) blast
    qed
    then show ?thesis
      using True by (simp add: Sum_forward_def Sum_init_def x0 py_bind_def Let_def)
  qed
qed

lemma sizes_4d:
  assumes "length (sizes t) = 4" and "sizes t ! 0 = N" and "sizes t ! 2 = H" and "sizes t ! 3 = W"
  shows "sizes t = [N, sizes t ! 1, H, W]"
proof -
  obtain a b c d where "sizes t = [a, b, c, d]"
    using assms(1) by (auto simp: eval_nat_numeral length_Suc_conv)
  then show ?thesis using assms by simp
qed

lemma length_block_row:
  assumes "out < N" and "\<forall>t \<in> set ts. length (elems t) = N * b t"
  shows "length (concat (map (\<lambda>t. take (b t) (drop (out * b t) (elems t))) ts))
           = sum_list (map b ts)"
  using assms(2)
proof (induction ts)
  case Nil
  show ?case by simp
next
  case (Cons t ts)
  have "out * b t + b t \<le> N * b t"
    using assms(1) by (metis Suc_leI mult_Suc mult_le_mono1 add.commute)
  then have "min (b t) (N * b t - out * b t) = b t"
    by simp
  then show ?case
    using Cons by simp
qed

lemma length_blocks:
  assumes "\<forall>t \<in> set ts. length (elems t) = N * b t"
  shows "length (concat (map (\<lambda>out.
            concat (map (\<lambda>t. take (b t) (drop (out * b t) (elems t))) ts)) [0 ..< N]))
           = N * sum_list (map b ts)"
proof -
  let ?F = "\<lambda>out. concat (map (\<lambda>t. take (b t) (drop (out * b t) (elems t))) ts)"
  have "length (concat (map ?F [0 ..< N])) = sum_list (map (\<lambda>out. length (?F out)) [0 ..< N])"
    by (simp only: length_concat map_map comp_def)
  also have "\<dots> = sum_list (map (\<lambda>out. sum_list (map b ts)) [0 ..< N])"
    by (rule arg_cong [where f = sum_list], rule map_cong [OF refl])
       (rule length_block_row [OF _ assms], simp)
  also have "\<dots> = N * sum_list (map b ts)"
    by (simp add: sum_list_triv)
  finally show ?thesis .
qed

lemma sum_list_channels:
  "sum_list (map (\<lambda>t. (c t :: nat) * (H * W)) ts) = sum_list (map c ts) * (H * W)"
  by (induction ts) (simp_all add: add_mult_distrib)

lemma concat_channels:
  assumes ne: "xs \<noteq> []"
    and all: "\<forall>t \<in> set xs. length (sizes t) = 4 \<and> sizes t ! 0 = N \<and> sizes t ! 2 = H
                \<and> sizes t ! 3 = W \<and> wf_tensor t"
  shows "\<exists>y. Concat_forward (Concat_init 1) xs = Inr y
           \<and> sizes y = [N, sum_list (map (\<lambda>t. sizes t ! 1) xs), H, W]
           \<and> wf_tensor y"
proof -
  obtain t0 rest where xs: "xs = t0 # rest"
    using ne by (cases xs) auto
  have sz: "sizes t = [N, sizes t ! 1, H, W]" if "t \<in> set xs" for t
    using all that by (intro sizes_4d) auto
  have s0: "sizes t0 = [N, sizes t0 ! 1, H, W]"
    by (rule sz) (simp add: xs)
  have len: "\<forall>t \<in> set xs. length (elems t) = N * (sizes t ! 1 * (H * W))"
  proof
    fix t assume t: "t \<in> set xs"
    then have "wf_tensor t" using all by simp
    then have "length (elems t) = prod_list [N, sizes t ! 1, H, W]"
      unfolding wf_tensor_def using sz [OF t] by simp
    then show "length (elems t) = N * (sizes t ! 1 * (H * W))" by simp
  qed
  have chk: "list_all (\<lambda>t. length (sizes t) = length (sizes t0)
               \<and> (sizes t)[1 := 0] = (sizes t0)[1 := 0]) xs"
    unfolding list_all_iff
  proof
    fix t assume t: "t \<in> set xs"
    have "(sizes t)[1 := 0] = [N, 0, H, W]"
      by (subst sz [OF t]) simp
    moreover have "(sizes t0)[1 := 0] = [N, 0, H, W]"
      by (subst s0) simp
    moreover have "length (sizes t) = length (sizes t0)"
      using all t xs by auto
    ultimately show "length (sizes t) = length (sizes t0)
               \<and> (sizes t)[1 := 0] = (sizes t0)[1 := 0]" by simp
  qed
  have blk: "prod_list (drop 1 (sizes t)) = sizes t ! 1 * (H * W)" if "t \<in> set xs" for t
    by (subst sz [OF that]) simp
  let ?b = "\<lambda>t. prod_list (drop 1 (sizes t))"
  let ?y = "\<lparr> sizes = (sizes t0)[1 := sum_list (map (\<lambda>t. sizes t ! 1) xs)],
              elems = concat (map (\<lambda>out.
                        concat (map (\<lambda>t. take (?b t) (drop (out * ?b t) (elems t))) xs))
                        [0 ..< prod_list (take 1 (sizes t0))]) \<rparr>"
  have l0: "length (sizes t0) = 4" using all xs by simp
  have cat: "torch_cat xs 1 = Inr ?y"
    using chk l0 by (simp add: torch_cat_def xs Let_def)
  have ysz: "sizes ?y = [N, sum_list (map (\<lambda>t. sizes t ! 1) xs), H, W]"
    by (simp, subst s0, simp)
  have outer: "prod_list (take 1 (sizes t0)) = N"
    by (subst s0) simp
  have len': "\<forall>t \<in> set xs. length (elems t) = N * ?b t"
    using len blk by simp
  have "length (elems ?y) = N * sum_list (map ?b xs)"
    using length_blocks [OF len'] by (simp only: tensor.select_convs outer)
  also have "map ?b xs = map (\<lambda>t. sizes t ! 1 * (H * W)) xs"
    by (rule map_cong [OF refl]) (rule blk)
  also have "N * sum_list (map (\<lambda>t. sizes t ! 1 * (H * W)) xs)
               = prod_list [N, sum_list (map (\<lambda>t. sizes t ! 1) xs), H, W]"
    by (simp add: sum_list_channels)
  finally have "wf_tensor ?y"
    unfolding wf_tensor_def ysz .
  then show ?thesis
    using cat ysz by (simp add: Concat_forward_def Concat_init_def)
qed

text \<open>
  C9.  For a non-empty list of well-formed four-dimensional tensors that agree on
  every dimension but the channels, \<open>Concat.forward\<close> with \<open>dim = 1\<close> returns a
  well-formed tensor whose channel count is the sum of the inputs' channel counts;
  for a list of \<open>n\<close> well-formed tensors of one shape, \<open>Sum.forward\<close> returns a
  well-formed tensor of that shape, with and without the learned weights.
\<close>

theorem composite_layer_shapes:
  "(xs \<noteq> [] \<and> (\<forall>t \<in> set xs. length (sizes t) = 4 \<and> sizes t ! 0 = N \<and> sizes t ! 2 = H
                     \<and> sizes t ! 3 = W \<and> wf_tensor t) \<longrightarrow>
      (\<exists>y. Concat_forward (Concat_init 1) xs = Inr y
         \<and> sizes y = [N, sum_list (map (\<lambda>t. sizes t ! 1) xs), H, W]
         \<and> wf_tensor y))
   \<and> (0 < n \<and> length x = nat n \<and> (\<forall>t \<in> set x. sizes t = s \<and> wf_tensor t) \<longrightarrow>
      (\<forall>wt. \<exists>y. Sum_forward (Sum_init n wt) x = Inr y \<and> sizes y = s \<and> wf_tensor y))"
  using concat_channels [of xs N H W] sum_keeps_shape [of n x s] by blast

theorem composite_layer_shapes_witness:
  "(\<exists>y. Concat_forward (Concat_init 1) [one_channel, two_channels] = Inr y
      \<and> sizes y = [1, 3, 1, 2] \<and> wf_tensor y)
   \<and> (\<exists>y. Sum_forward (Sum_init 2 False) [one_channel, one_channel] = Inr y
      \<and> sizes y = [1, 1, 1, 2] \<and> wf_tensor y)
   \<and> (\<exists>y. Sum_forward (Sum_init 2 True) [one_channel, one_channel] = Inr y
      \<and> sizes y = [1, 1, 1, 2] \<and> wf_tensor y)"
  using composite_layer_shapes [of "[one_channel, two_channels]" 1 1 2 2
      "[one_channel, one_channel]" "[1, 1, 1, 2]"]
  by (simp add: one_channel_def two_channels_def wf_tensor_def numeral_3_eq_3)

lemma concat_example:
  "Concat_forward (Concat_init 1) [one_channel, two_channels]
     = Inr \<lparr> sizes = [1, 3, 1, 2], elems = [1, 2, 3, 4, 5, 6] \<rparr>"
  by (simp add: Concat_forward_def Concat_init_def torch_cat_def one_channel_def
        two_channels_def)

lemma sum_example:
  "Sum_forward (Sum_init 2 False) [one_channel, one_channel]
     = Inr \<lparr> sizes = [1, 1, 1, 2], elems = [2, 4] \<rparr>"
  by (simp add: Sum_forward_def Sum_init_def py_bind_def py_index_def tensor_binop_def
        one_channel_def)

subsection \<open>The mid-channel count\<close>

lemma math_ceil_finite: "math_ceil (Finite m e) = Inr \<lceil>valof (Finite m e)\<rceil>"
proof (cases "0 \<le> e")
  case True
  have "\<lceil>(of_int m :: real) * 2 ^ nat e\<rceil> = m * 2 ^ nat e"
    by (metis ceiling_of_int of_int_mult of_int_numeral of_int_power)
  then show ?thesis using True by simp
next
  case False
  have "\<lceil>(of_int m :: real) / 2 ^ nat (- e)\<rceil> = - \<lfloor>(of_int (- m) :: real) / of_int (2 ^ nat (- e))\<rfloor>"
    by (simp add: ceiling_def)
  also have "\<dots> = - ((- m) div 2 ^ nat (- e))"
    by (simp only: floor_divide_of_int_eq)
  finally show ?thesis using False by simp
qed

lemma bitlen_le: "n < 2 ^ k \<Longrightarrow> bitlen n \<le> k"
proof (induction k arbitrary: n)
  case 0
  then show ?case by (simp add: bitlen.simps)
next
  case (Suc k)
  show ?case
  proof (cases "n = 0")
    case True
    then show ?thesis by (simp add: bitlen.simps)
  next
    case False
    have "n div 2 < 2 ^ k" using Suc.prems by auto
    then have "bitlen (n div 2) \<le> k" by (rule Suc.IH)
    then show ?thesis using False by (subst bitlen.simps) simp
  qed
qed

lemmas float_eval = mid_channels_def float_times_int_def py_bind_def float_of_int_def round_to_double_def
  finite_or_inf_def Let_def one_tenth_def one_quarter_def bitlen.simps

text \<open>Some products, as Python computes them.\<close>

lemma one_tenth_of_40: "mid_channels 40 one_tenth 4 = Inr 4"
  by (simp add: float_eval)

lemma one_tenth_of_10: "mid_channels 10 one_tenth 1 = Inr 1"
  by (simp add: float_eval)

lemma one_quarter_of_32: "mid_channels 32 one_quarter 4 = Inr 8"
  by (simp add: float_eval)

text \<open>Rounding at the bottom of the range, and of ints above \<open>2^53\<close>.\<close>

lemma subnormal_tie_to_even: "float_mul (Finite 3 (-1074)) (Finite 1 (-1)) = Finite 2 (- 1074)"
  by (simp add: float_eval)

lemma subnormal_tie_to_zero: "float_mul (Finite 1 (-1074)) (Finite 1 (-1)) = Finite 0 (- 1074)"
  by (simp add: float_eval)

lemma int_tie_to_even_down: "float_of_int (2 ^ 53 + 1) = Inr (Finite (2 ^ 52) 1)"
  by (simp add: float_eval)

lemma int_tie_to_even_up: "float_of_int (2 ^ 53 + 3) = Inr (Finite (2 ^ 52 + 2) 1)"
  by (simp add: float_eval)

lemma exact_ceiling_one_tenth_of_40: "\<lceil>valof one_tenth * 40\<rceil> = 5"
  by (simp add: one_tenth_def ceiling_eq_iff)

lemma mid_channels_Inr:
  assumes "mid_channels C p m = Inr k"
  shows "\<exists>mx ex. float_times_int p C = Inr (Finite mx ex)
           \<and> k = min C (max m \<lceil>valof (Finite mx ex)\<rceil>)"
proof (cases "float_times_int p C")
  case (Inl err)
  with assms show ?thesis by (simp add: mid_channels_def py_bind_def)
next
  case (Inr x)
  show ?thesis
  proof (cases x)
    case (Finite mx ex)
    with assms Inr show ?thesis
      by (auto simp: mid_channels_def py_bind_def math_ceil_finite
            simp del: math_ceil.simps valof.simps)
  qed (use assms Inr in \<open>simp_all add: mid_channels_def py_bind_def\<close>)
qed

lemma mid_channels_finite:
  assumes "float_times_int p C = Inr (Finite mx ex)"
  shows "mid_channels C p m = Inr (min C (max m \<lceil>valof (Finite mx ex)\<rceil>))"
  using assms
  by (simp add: mid_channels_def py_bind_def math_ceil_finite
        del: math_ceil.simps valof.simps)

lemma float_of_int_small:
  assumes "0 \<le> C" and "C < 2 ^ 53"
  shows "float_of_int C = Inr (Finite C 0)"
proof -
  have "nat \<bar>C\<bar> < 2 ^ 53" using assms by (simp add: nat_less_iff)
  then have "bitlen (nat \<bar>C\<bar>) \<le> 53" by (rule bitlen_le)
  then show ?thesis
    by (simp add: float_of_int_def round_to_double_def finite_or_inf_def Let_def)
qed

lemma exact_product:
  assumes "0 \<le> C" and "C < 2 ^ 53" and "- 1074 \<le> e" and "\<bar>s\<bar> * C < 2 ^ 53"
    and "float_mul (Finite s e) (Finite C 0) = Finite mx ex"
  shows "valof (Finite mx ex) = valof (Finite s e) * of_int C"
proof -
  have "nat \<bar>s * C\<bar> < 2 ^ 53"
    using assms(1,4) by (simp add: nat_less_iff abs_mult)
  then have "bitlen (nat \<bar>s * C\<bar>) \<le> 53" by (rule bitlen_le)
  then have "round_to_double (s * C) e = finite_or_inf (s * C) e"
    using assms(3) by (simp add: round_to_double_def Let_def)
  then have "Finite mx ex = Finite (s * C) e"
    using assms(5) by (simp add: finite_or_inf_def split: if_splits)
  then show ?thesis by simp
qed

lemma bitlen_zero: "bitlen 0 = 0"
  by (simp add: bitlen.simps)

lemma round_to_double_zero:
  assumes "- 1074 \<le> E" and "E \<le> 1024"
  shows "round_to_double 0 E = Finite 0 E"
  using assms by (simp add: round_to_double_def finite_or_inf_def Let_def bitlen_zero)

lemma round_to_double_finite:
  assumes M: "0 \<le> M" "M < 2 ^ 106" and E: "E \<le> 0"
  shows "\<exists>mx ex. round_to_double M E = Finite mx ex"
proof -
  let ?n = "int (bitlen (nat \<bar>M\<bar>))"
  let ?k = "max (?n - 53) (- 1074 - E)"
  have "nat \<bar>M\<bar> < 2 ^ 106" using M by (simp add: nat_less_iff)
  then have n: "?n \<le> 106" using bitlen_le by fastforce
  show ?thesis
  proof (cases "?k \<le> 0")
    case True
    then have "round_to_double M E = finite_or_inf M E"
      by (simp add: round_to_double_def Let_def)
    moreover have "\<not> 1024 < ?n + E" using n E by simp
    ultimately show ?thesis by (simp add: finite_or_inf_def)
  next
    case False
    define q where "q = M div 2 ^ nat ?k"
    define r where "r = M mod 2 ^ nat ?k"
    define q' where "q' = (if 2 ^ (nat ?k - 1) < r \<or> (r = 2 ^ (nat ?k - 1) \<and> odd q) then q + 1 else q)"
    have r2d: "round_to_double M E = finite_or_inf q' (E + ?k)"
      unfolding round_to_double_def Let_def q_def r_def q'_def
      by (simp only: False if_False)
    have q0: "0 \<le> q" unfolding q_def using M(1) by (simp add: pos_imp_zdiv_nonneg_iff)
    have "q \<le> M" unfolding q_def using M(1)
      by (metis div_by_1 one_le_numeral one_le_power zdiv_mono2 zero_less_one)
    then have "q' < 2 ^ 107" unfolding q'_def using M(2) by auto
    moreover have "0 \<le> q'" unfolding q'_def using q0 by simp
    ultimately have "nat \<bar>q'\<bar> < 2 ^ 107" by (simp add: nat_less_iff)
    then have b: "int (bitlen (nat \<bar>q'\<bar>)) \<le> 107" using bitlen_le by fastforce
    have "E + ?k \<le> 53" using n E by simp
    then have "\<not> 1024 < int (bitlen (nat \<bar>q'\<bar>)) + (E + ?k)" using b by simp
    then show ?thesis unfolding r2d by (simp add: finite_or_inf_def)
  qed
qed

lemma product_finite:
  assumes d: "is_double (Finite s e)" and lo: "float_le (Finite 0 0) (Finite s e)"
    and hi: "float_le (Finite s e) (Finite 1 0)" and C: "0 < C" "C < 2 ^ 53"
  shows "\<exists>mx ex. float_mul (Finite s e) (Finite C 0) = Finite mx ex"
proof (cases "s = 0")
  case True
  have "- 1074 \<le> e" "e \<le> 1024"
    using d True by (simp_all add: is_double_def bitlen_zero)
  then show ?thesis using True by (simp add: round_to_double_zero)
next
  case False
  have s: "0 \<le> s" using lo by (simp add: zero_le_mult_iff)
  then have s1: "1 \<le> s" using False by simp
  have e: "e \<le> 0"
  proof (rule ccontr)
    assume "\<not> e \<le> 0"
    then have "0 < e" by simp
    then have "s * 2 ^ nat e \<le> 1" using hi by simp
    moreover have "(2::int) ^ 1 \<le> 2 ^ nat e"
      using \<open>0 < e\<close> by (intro power_increasing) auto
    then have "1 * 2 \<le> s * 2 ^ nat e"
      using s1 by (intro mult_mono) auto
    ultimately show False by simp
  qed
  have "\<bar>s\<bar> < 2 ^ 53" using d by (simp add: is_double_def)
  then have "s * C < 2 ^ 53 * 2 ^ 53" using s C
    by (intro mult_strict_mono) auto
  then have "s * C < 2 ^ 106" by simp
  moreover have "0 \<le> s * C" using s C by simp
  ultimately have "\<exists>mx ex. round_to_double (s * C) e = Finite mx ex"
    using e by (intro round_to_double_finite) auto
  then show ?thesis by simp
qed

lemma float_times_int_small:
  assumes "0 < C" and "C < 2 ^ 53"
  shows "float_times_int p C = Inr (float_mul p (Finite C 0))"
  using assms by (simp add: float_times_int_def py_bind_def float_of_int_small)

lemma unit_interval_finite:
  assumes "float_le (Finite 0 0) p" and "float_le p (Finite 1 0)"
  obtains s e where "p = Finite s e"
  using assms by (cases p) auto

text \<open>
  C1, as amended.  For \<open>in_channels = C > 0\<close> and a float \<open>p\<close> with \<open>0 \<le> p \<le> 1\<close>, every
  layer that either constructor returns has a first pointwise projection with
  \<open>min(C, max(min_mid_channels, ceil(x)))\<close> output channels, where \<open>x\<close> is the float
  product \<open>p * C\<close>: the exact product rounded to the nearest float.  Both constructors
  return for every \<open>C\<close> below \<open>2^53\<close>.  Where \<open>p = s * 2^e\<close> and \<open>|s| * C\<close> is below
  \<open>2^53\<close>, the float product is the exact product, and the count is the one of the
  formula read over the reals.
\<close>

theorem mid_channel_count:
  assumes "0 < C" and "is_double p" and "float_le (Finite 0 0) p" and "float_le p (Finite 1 0)"
  shows "(\<forall>L. SubspaceBlueprintSeparableConv2d_init
                to_act C out_ch ks st pad dil grp b pm p m act = Inr L \<longrightarrow>
            (\<exists>mx ex. float_times_int p C = Inr (Finite mx ex)
               \<and> out_channels (pw_conv1 L) = min C (max m \<lceil>valof (Finite mx ex)\<rceil>)))
       \<and> (\<forall>L. AttentionSubspaceBlueprintSeparableConv2d_init
                sim C out_ch ks st pad dil grp b pm p m a1 a2 = Inr L \<longrightarrow>
            (\<exists>mx ex. float_times_int p C = Inr (Finite mx ex)
               \<and> out_channels (pw_conv1 L) = min C (max m \<lceil>valof (Finite mx ex)\<rceil>)
               \<and> in_channels (pw_conv2 L) = min C (max m \<lceil>valof (Finite mx ex)\<rceil>)))
       \<and> (C < 2 ^ 53 \<longrightarrow>
            (\<exists>L L'. SubspaceBlueprintSeparableConv2d_init
                       to_act C out_ch ks st pad dil grp b pm p m act = Inr L
                   \<and> AttentionSubspaceBlueprintSeparableConv2d_init
                       sim C out_ch ks st pad dil grp b pm p m a1 a2 = Inr L'))
       \<and> (\<forall>s e mx ex. p = Finite s e \<and> C < 2 ^ 53 \<and> \<bar>s\<bar> * C < 2 ^ 53
              \<and> float_times_int p C = Inr (Finite mx ex) \<longrightarrow>
            valof (Finite mx ex) = valof p * of_int C)"
proof (intro conjI allI impI)
  fix L
  assume "SubspaceBlueprintSeparableConv2d_init to_act C out_ch ks st pad dil grp b pm p m act
            = Inr L"
  then obtain k where k: "mid_channels C p m = Inr k" and L: "pw_conv1 L = pointwise C k"
    by (cases "mid_channels C p m")
       (auto simp: SubspaceBlueprintSeparableConv2d_init_def py_bind_def)
  from mid_channels_Inr [OF k] L
  show "\<exists>mx ex. float_times_int p C = Inr (Finite mx ex)
          \<and> out_channels (pw_conv1 L) = min C (max m \<lceil>valof (Finite mx ex)\<rceil>)"
    by (auto simp: pointwise_def simp del: valof.simps)
next
  fix L
  assume "AttentionSubspaceBlueprintSeparableConv2d_init sim C out_ch ks st pad dil grp b pm p m
            a1 a2 = Inr L"
  then obtain k where k: "mid_channels C p m = Inr k"
    and L: "pw_conv1 L = pointwise C k" "pw_conv2 L = pointwise k out_ch"
    by (cases "mid_channels C p m")
       (auto simp: AttentionSubspaceBlueprintSeparableConv2d_init_def py_bind_def
          split: if_splits)
  from mid_channels_Inr [OF k] L
  show "\<exists>mx ex. float_times_int p C = Inr (Finite mx ex)
          \<and> out_channels (pw_conv1 L) = min C (max m \<lceil>valof (Finite mx ex)\<rceil>)
          \<and> in_channels (pw_conv2 L) = min C (max m \<lceil>valof (Finite mx ex)\<rceil>)"
    by (auto simp: pointwise_def simp del: valof.simps)
next
  assume C: "C < 2 ^ 53"
  obtain s e where p: "p = Finite s e"
    using assms(3,4) by (rule unit_interval_finite)
  obtain mx ex where "float_mul p (Finite C 0) = Finite mx ex"
    using product_finite [of s e C] assms C p by auto
  then have "float_times_int p C = Inr (Finite mx ex)"
    using assms(1) C by (simp add: float_times_int_small)
  then have "mid_channels C p m = Inr (min C (max m \<lceil>valof (Finite mx ex)\<rceil>))"
    by (rule mid_channels_finite)
  then show "\<exists>L L'. SubspaceBlueprintSeparableConv2d_init
                       to_act C out_ch ks st pad dil grp b pm p m act = Inr L
                   \<and> AttentionSubspaceBlueprintSeparableConv2d_init
                       sim C out_ch ks st pad dil grp b pm p m a1 a2 = Inr L'"
    using assms(3,4)
    by (simp add: SubspaceBlueprintSeparableConv2d_init_def
          AttentionSubspaceBlueprintSeparableConv2d_init_def py_bind_def del: valof.simps)
next
  fix s e mx ex
  assume h: "p = Finite s e \<and> C < 2 ^ 53 \<and> \<bar>s\<bar> * C < 2 ^ 53
              \<and> float_times_int p C = Inr (Finite mx ex)"
  then have hp: "p = Finite s e" and hC: "C < 2 ^ 53" and hs: "\<bar>s\<bar> * C < 2 ^ 53"
    and hx: "float_times_int p C = Inr (Finite mx ex)" by blast+
  have "float_times_int p C = Inr (float_mul p (Finite C 0))"
    using assms(1) hC by (rule float_times_int_small)
  then have m: "float_mul (Finite s e) (Finite C 0) = Finite mx ex"
    using hx hp by simp
  have e: "- 1074 \<le> e" using assms(2) hp by (simp add: is_double_def)
  have "0 \<le> C" using assms(1) by simp
  from exact_product [OF this hC e hs m]
  show "valof (Finite mx ex) = valof p * of_int C"
    unfolding hp .
qed

lemma one_quarter_double:
  "is_double one_quarter" "float_le (Finite 0 0) one_quarter" "float_le one_quarter (Finite 1 0)"
  by (simp_all add: one_quarter_def is_double_def bitlen.simps)

theorem mid_channel_count_witness:
  "(\<exists>L L'. SubspaceBlueprintSeparableConv2d_init no_activation 32 64 (SizeInt 3) (SizeInt 1)
               (SizeInt 1) (SizeInt 1) 1 True ''zeros'' one_quarter 4 None = Inr L
           \<and> AttentionSubspaceBlueprintSeparableConv2d_init () 32 64 (SizeInt 3) (SizeInt 1)
               (SizeInt 1) (SizeInt 1) 1 True ''zeros'' one_quarter 4
               (None :: (int \<Rightarrow> unit) option) None = Inr L'
           \<and> out_channels (pw_conv1 L) = 8 \<and> out_channels (pw_conv1 L') = 8
           \<and> in_channels (pw_conv2 L') = 8)
   \<and> min 32 (max 4 \<lceil>valof one_quarter * 32\<rceil>) = (8::int)"
proof -
  have C: "(0::int) < 32" "(32::int) < 2 ^ 53" by simp_all
  note t = mid_channel_count [OF C(1) one_quarter_double, of no_activation 64 "SizeInt 3"
      "SizeInt 1" "SizeInt 1" "SizeInt 1" 1 True "''zeros''" 4 None "()"
      "None :: (int \<Rightarrow> unit) option" None]
  from t C(2) obtain L L' where
    L: "SubspaceBlueprintSeparableConv2d_init no_activation 32 64 (SizeInt 3) (SizeInt 1)
          (SizeInt 1) (SizeInt 1) 1 True ''zeros'' one_quarter 4 None = Inr L"
    and L': "AttentionSubspaceBlueprintSeparableConv2d_init () 32 64 (SizeInt 3) (SizeInt 1)
          (SizeInt 1) (SizeInt 1) 1 True ''zeros'' one_quarter 4
          (None :: (int \<Rightarrow> unit) option) None = Inr L'"
    by blast
  from t L obtain mx ex where x: "float_times_int one_quarter 32 = Inr (Finite mx ex)"
    and o: "out_channels (pw_conv1 L) = min 32 (max 4 \<lceil>valof (Finite mx ex)\<rceil>)"
    by blast
  from t L' x have o': "out_channels (pw_conv1 L') = min 32 (max 4 \<lceil>valof (Finite mx ex)\<rceil>)"
    "in_channels (pw_conv2 L') = min 32 (max 4 \<lceil>valof (Finite mx ex)\<rceil>)"
    by fastforce+
  have "one_quarter = Finite 1 (- 2) \<and> (32::int) < 2 ^ 53 \<and> \<bar>1\<bar> * (32::int) < 2 ^ 53
          \<and> float_times_int one_quarter 32 = Inr (Finite mx ex)"
    using x by (simp add: one_quarter_def)
  with t have v: "valof (Finite mx ex) = valof one_quarter * of_int 32"
    by blast
  have q: "valof one_quarter * 32 = 8"
    by (simp add: one_quarter_def)
  show ?thesis
    using L L' o o' by (auto simp: v q simp del: valof.simps)
qed

lemma one_tenth_double:
  "is_double one_tenth" "float_le (Finite 0 0) one_tenth" "float_le one_tenth (Finite 1 0)"
  by (simp_all add: one_tenth_def is_double_def bitlen.simps)

text \<open>
  C1 as stated, with the ceiling of the exact product, fails for \<open>p = 0.1\<close>, \<open>C = 40\<close>
  and the default \<open>min_mid_channels = 4\<close>: the float \<open>0.1\<close> is slightly above one
  tenth, so the exact product is above 4 and its ceiling is 5, while the float
  product is 4.0 and the layer has 4 mid channels.
\<close>

theorem exact_ceiling_counterexample:
  "is_double one_tenth \<and> float_le (Finite 0 0) one_tenth \<and> float_le one_tenth (Finite 1 0)
   \<and> AttentionSubspaceBlueprintSeparableConv2d_init () 40 64 (SizeInt 3) (SizeInt 1)
        (SizeInt 1) (SizeInt 1) 1 True ''zeros'' one_tenth 4
        (None :: (int \<Rightarrow> unit) option) None
      = Inr \<lparr> pw_conv1 = pointwise 40 4, act1 = None, pw_conv2 = pointwise 4 64, act2 = None,
              dw_conv = depthwise 64 (SizeInt 3) (SizeInt 1) (SizeInt 1) (SizeInt 1) True ''zeros'',
              simam = () \<rparr>
   \<and> min 40 (max 4 \<lceil>valof one_tenth * 40\<rceil>) = (5::int)"
proof -
  have m: "mid_channels 40 one_tenth 4 = Inr 4"
    by (simp add: float_eval)
  have c: "\<lceil>valof one_tenth * 40\<rceil> = 5"
    by (simp add: one_tenth_def ceiling_eq_iff)
  show ?thesis
    using one_tenth_double
    by (simp add: AttentionSubspaceBlueprintSeparableConv2d_init_def m c py_bind_def
          del: valof.simps)
qed

subsection \<open>The count assertion of the listing\<close>

lemma collect_Inl: "collect xs = Inl e \<Longrightarrow> Inl e \<in> set xs"
  by (induction xs) (auto split: sum.splits)

lemma enumerated_errors:
  assumes "enumerated env self = Inl e"
  shows "e = ValueError \<or> e = IndexError"
proof -
  from assms have
    "collect (map (\<lambda>k. randint (raw_random env k) 0 (int (length (discovered env self)) - 1))
        [0 ..< nat (batch_size self)]) = Inl e
     \<or> (\<exists>indices. collect (map (\<lambda>i. py_index (discovered env self) i) indices) = Inl e)"
    by (auto simp: enumerated_def Let_def split: if_splits sum.splits)
  then show ?thesis
  proof
    assume "collect (map (\<lambda>k. randint (raw_random env k) 0 (int (length (discovered env self)) - 1))
        [0 ..< nat (batch_size self)]) = Inl e"
    from collect_Inl [OF this] show ?thesis
      by (auto simp: randint_def split: if_splits)
  next
    assume "\<exists>indices. collect (map (\<lambda>i. py_index (discovered env self) i) indices) = Inl e"
    then obtain indices where
      "collect (map (\<lambda>i. py_index (discovered env self) i) indices) = Inl e" ..
    from collect_Inl [OF this] show ?thesis
      by (auto simp: py_index_def split: if_splits)
  qed
qed

text \<open>
  On a dataset object whose two path lists are equally long, as they are when
  \<open>list_files\<close> is called on a fresh object, the assertion of lines 235-237 cannot
  fail, whatever the directories hold.
\<close>

lemma count_assertion_never_fires:
  assumes "length (image_paths self) = length (eimage_paths self)"
  shows "list_files env self \<noteq> Inl (AssertionError msg)"
proof (cases "enumerated env self")
  case (Inl e)
  then have "list_files env self = Inl e" by (simp add: list_files_def)
  then show ?thesis using enumerated_errors [OF Inl] by auto
next
  case (Inr ps)
  show ?thesis using assms by (simp add: list_files_unfold [OF Inr])
qed

text \<open>
  C3.  A split directory with two input images and no target image: \<open>list_files\<close>
  returns, with two target paths in \<open>eimage_paths\<close> that it derived from the input
  paths and never looked up.
\<close>

theorem missing_targets_not_detected:
  "discovered two_images (fresh_dataset False 4)
     = [''/data/lol/train/low/a.png'', ''/data/lol/train/low/b.png'']
   \<and> glob_glob two_images ''/data/lol/train/high/*.png'' = []
   \<and> list_files two_images (fresh_dataset False 4)
     = Inr \<lparr> root = ''/data'', split = ''train'', fast_dev_run = False, batch_size = 4,
             image_paths = [''/data/lol/train/low/a.png'', ''/data/lol/train/low/b.png''],
             eimage_paths = [''/data/lol/train/high/a.png'', ''/data/lol/train/high/b.png''],
             label_paths = [''/data/lol/train/customs/a.json'', ''/data/lol/train/customs/b.json''],
             has_custom_labels = True \<rparr>"
proof -
  have e: "enumerated two_images (fresh_dataset False 4)
             = Inr [''/data/lol/train/low/a.png'', ''/data/lol/train/low/b.png'']"
    by (simp add: enumerated_def fresh_dataset_simps two_images_discovered)
  have g: "glob_glob two_images ''/data/lol/train/high/*.png'' = []"
    by (simp add: two_images_def two_files_def)
  have "foldl (list_step two_images) (fresh_dataset False 4)
          [''/data/lol/train/low/a.png'', ''/data/lol/train/low/b.png'']
        = \<lparr> root = ''/data'', split = ''train'', fast_dev_run = False, batch_size = 4,
             image_paths = [''/data/lol/train/low/a.png'', ''/data/lol/train/low/b.png''],
             eimage_paths = [''/data/lol/train/high/a.png'', ''/data/lol/train/high/b.png''],
             label_paths = [''/data/lol/train/customs/a.json'', ''/data/lol/train/customs/b.json''],
             has_custom_labels = True \<rparr>"
    by (simp add: list_step_def label_path_of_def fresh_dataset_def two_images_def
          only_b_labelled_def Let_def)
  then show ?thesis
    using g by (simp add: list_files_unfold [OF e] fresh_dataset_simps two_images_discovered)
qed

end
